theory Spec2Isabelle
  imports Main
begin

section \<open>croncycle: the scheduling loop of \<^verbatim>\<open>src/croncycle/__main__.py\<close>\<close>

text \<open>
  The program is one function, \<^verbatim>\<open>main\<close>, run by \<^verbatim>\<open>typer.run\<close>. It talks to
  the outside world through the wall clock (\<^verbatim>\<open>datetime.now()\<close>), \<^verbatim>\<open>time.sleep\<close>,
  \<^verbatim>\<open>subprocess.run\<close>, the logger and the \<^verbatim>\<open>croniter\<close> library. In the model
  every answer of the outside world is an explicit input, every call that acts on the
  outside world is an event of a trace, and every exception is a value.
\<close>

subsection \<open>Data\<close>

text \<open>
  A \<^verbatim>\<open>datetime\<close> has microsecond resolution: a timestamp is a number of
  microseconds, and so is a duration.
\<close>

type_synonym timestamp = int

text \<open>The parameters of \<^verbatim>\<open>main\<close> (lines 16-46), under their source names.\<close>

record config =
  command :: "string list"
  cron :: string
  quiet :: bool
  exit_on_error :: bool
  ignored_codes :: "int list"
  no_richuru :: bool
  stdin :: bool
  stderr_to_stdout :: bool
  no_output :: bool

text \<open>
  The exceptions that occur. \<^verbatim>\<open>typer.Exit\<close> is \<^verbatim>\<open>click.exceptions.Exit\<close>,
  declared \<^verbatim>\<open>class Exit(RuntimeError)\<close>; \<^verbatim>\<open>OSError\<close> stands for what
  \<^verbatim>\<open>subprocess.run\<close> raises when the command cannot be started
  (\<^verbatim>\<open>FileNotFoundError\<close>, \<^verbatim>\<open>PermissionError\<close>); the two croniter errors are
  subclasses of \<^verbatim>\<open>ValueError\<close>.
\<close>

datatype exn =
    KeyboardInterrupt
  | Exit int
  | OSError string
  | ValueError string
  | CroniterBadCronError
  | CroniterBadDateError

text \<open>
  \<^verbatim>\<open>isinstance(e, Exception)\<close>: of the exceptions above only
  \<^verbatim>\<open>KeyboardInterrupt\<close> derives from \<^verbatim>\<open>BaseException\<close> directly.
\<close>

fun is_Exception :: "exn \<Rightarrow> bool" where
  "is_Exception KeyboardInterrupt = False"
| "is_Exception (Exit n) = True"
| "is_Exception (OSError s) = True"
| "is_Exception (ValueError s) = True"
| "is_Exception CroniterBadCronError = True"
| "is_Exception CroniterBadDateError = True"

text \<open>What a standard stream of the child is connected to.\<close>

datatype stdio = Sys_stdin | Sys_stdout | Sys_stderr | DEVNULL

text \<open>The arguments of one call of \<^verbatim>\<open>subprocess.run\<close>.\<close>

record popen =
  args :: "string list"
  p_stdin :: stdio
  p_stdout :: stdio
  p_stderr :: stdio

datatype level = DEBUG | INFO | WARNING | ERROR

text \<open>
  The log messages, with the values their f-strings interpolate.
  \<open>Next_run_at next_run delta\<close> carries the arguments of \<^verbatim>\<open>naturaldate\<close> and
  \<^verbatim>\<open>naturaldelta\<close>.
\<close>

datatype message =
    Running_with_cron string
  | Command_line string
  | Next_run_in_past timestamp
  | Next_run_at timestamp int
  | Exiting
  | Running_job
  | Running_command string
  | Exited_with_status int
  | Error_running exn

text \<open>
  What the program does to the outside world, in order. \<open>Sleep d\<close> is a call of
  \<^verbatim>\<open>time.sleep\<close> for \<open>d\<close> microseconds, \<open>Run p\<close> a call of \<^verbatim>\<open>subprocess.run\<close>.
\<close>

datatype event =
    Logger_remove
  | Logger_add_stderr level
  | Install_richuru
  | Log level message
  | Sleep int
  | Run popen

subsection \<open>The outside world\<close>

text \<open>
  \<^verbatim>\<open>time.sleep\<close> returns, or the operator interrupts it. \<^verbatim>\<open>subprocess.run\<close>
  returns a \<^verbatim>\<open>CompletedProcess\<close> with a \<^verbatim>\<open>returncode\<close>, or raises.
\<close>

datatype sleep_outcome = Slept | Sleep_interrupted

datatype run_outcome = Returned int | Raised exn

text \<open>
  The answers of the outside world during one iteration of the loop: the three readings
  of \<^verbatim>\<open>datetime.now()\<close> (lines 61, 66 and 69), what happens to the sleep and what
  happens to the command. An iteration that leaves early does not use the later fields.
\<close>

record cycle_env =
  now_check :: timestamp
  now_log :: timestamp
  now_sleep :: timestamp
  sleep_result :: sleep_outcome
  run_result :: run_outcome

subsection \<open>The schedule calculator\<close>

text \<open>
  \<^verbatim>\<open>croniter\<close> is a third-party library. It is a parameter of the model: \<open>parse\<close>
  says which expressions it accepts, \<open>next_after x t\<close> is the trigger instant it computes
  for the parsed expression \<open>x\<close> from the cursor \<open>t\<close> (\<open>None\<close>: it raises).
\<close>

record 'x cronlib =
  parse :: "string \<Rightarrow> 'x option"
  next_after :: "'x \<Rightarrow> timestamp \<Rightarrow> timestamp option"

text \<open>The iterator object: the parsed expression and the cursor.\<close>

record 'x iter_state =
  expr :: 'x
  cur :: timestamp

text \<open>
  Modelled from the spec: the constructor \<^verbatim>\<open>croniter(cron, start_time=...)\<close>, whose code
  is not in the repository. It fails on an expression that cannot be parsed (spec 4.1,
  \<^verbatim>\<open>InvalidScheduleExpression\<close>) and seeds the cursor with the anchor timestamp (spec 3,
  \<^verbatim>\<open>ScheduleSpec\<close>).
\<close>

definition croniter :: "'x cronlib \<Rightarrow> string \<Rightarrow> timestamp \<Rightarrow> exn + 'x iter_state" where
  "croniter L s start_time =
     (case parse L s of
        None \<Rightarrow> Inl CroniterBadCronError
      | Some x \<Rightarrow> Inr \<lparr>expr = x, cur = start_time\<rparr>)"

text \<open>
  Modelled from the spec: the method \<^verbatim>\<open>get_next\<close>, whose code is not in the repository.
  It computes the next trigger instant from the cursor and moves the cursor there
  (spec 4.1: the calculator "internally maintains a cursor").
\<close>

definition get_next :: "'x cronlib \<Rightarrow> 'x iter_state \<Rightarrow> exn + (timestamp \<times> 'x iter_state)" where
  "get_next L it =
     (case next_after L (expr it) (cur it) of
        None \<Rightarrow> Inl CroniterBadDateError
      | Some t \<Rightarrow> Inr (t, it\<lparr>cur := t\<rparr>))"

subsection \<open>The program\<close>

text \<open>\<^verbatim>\<open>' '.join(command)\<close>\<close>

fun join_space :: "string list \<Rightarrow> string" where
  "join_space [] = []"
| "join_space [x] = x"
| "join_space (x # y # ys) = x @ '' '' @ join_space (y # ys)"

text \<open>Lines 47-51.\<close>

definition setup_logging :: "config \<Rightarrow> event list" where
  "setup_logging cfg =
     (if quiet cfg then [Logger_remove, Logger_add_stderr ERROR]
      else if \<not> no_richuru cfg then [Install_richuru]
      else [])"

text \<open>Lines 81-86: the arguments passed to \<^verbatim>\<open>subprocess.run\<close>.\<close>

definition run_args :: "config \<Rightarrow> popen" where
  "run_args cfg =
     \<lparr>args = command cfg,
      p_stdin = (if stdin cfg then Sys_stdin else DEVNULL),
      p_stdout = (if \<not> no_output cfg then Sys_stdout else DEVNULL),
      p_stderr = (if stderr_to_stdout cfg then Sys_stdout else Sys_stderr)\<rparr>"

text \<open>
  Lines 81-94, the body of the \<^verbatim>\<open>try\<close>: the events it produces and the exception
  that leaves it, if any.
\<close>

definition try_body :: "config \<Rightarrow> run_outcome \<Rightarrow> event list \<times> exn option" where
  "try_body cfg r =
     (case r of
        Raised x \<Rightarrow> ([Run (run_args cfg)], Some x)
      | Returned returncode \<Rightarrow>
          if returncode \<noteq> 0 then
            if exit_on_error cfg \<and> returncode \<notin> set (ignored_codes cfg) then
              ([Run (run_args cfg), Log ERROR (Exited_with_status returncode)],
               Some (Exit returncode))
            else
              ([Run (run_args cfg), Log ERROR (Exited_with_status returncode),
                Log INFO (Exited_with_status returncode)], None)
          else
            ([Run (run_args cfg), Log INFO (Exited_with_status returncode)], None))"

text \<open>
  Lines 95-100, the \<^verbatim>\<open>except\<close> clauses, tried in order on the exception that left
  the body: \<^verbatim>\<open>except KeyboardInterrupt\<close> raises \<^verbatim>\<open>typer.Exit(0)\<close>,
  \<^verbatim>\<open>except Exception\<close> logs and continues, anything else propagates. The result is the
  exception that leaves the whole statement, if any.
\<close>

definition except_clauses :: "exn option \<Rightarrow> event list \<times> exn option" where
  "except_clauses r =
     (case r of
        None \<Rightarrow> ([], None)
      | Some e \<Rightarrow>
          if e = KeyboardInterrupt then ([Log INFO Exiting], Some (Exit 0))
          else if is_Exception e then ([Log ERROR (Error_running e)], None)
          else ([], Some e))"

text \<open>Lines 77-100: the command is run and its outcome handled.\<close>

definition run_job :: "config \<Rightarrow> run_outcome \<Rightarrow> event list \<times> exn option" where
  "run_job cfg r =
     (case try_body cfg r of (evs, raised) \<Rightarrow>
        case except_clauses raised of (evs', leaving) \<Rightarrow>
          ([Log INFO Running_job, Log DEBUG (Running_command (join_space (command cfg)))]
             @ evs @ evs', leaving))"

text \<open>
  Lines 59-100, one iteration of \<^verbatim>\<open>while True\<close>. \<open>Inr it'\<close>: control is back at the
  head of the loop, the iterator being \<open>it'\<close>; \<open>Inl e\<close>: the exception \<open>e\<close> leaves the loop.
  \<^verbatim>\<open>time.sleep\<close> raises \<^verbatim>\<open>ValueError\<close> on a negative duration, and no clause
  catches it.
\<close>

definition loop_body ::
  "'x cronlib \<Rightarrow> config \<Rightarrow> 'x iter_state \<Rightarrow> cycle_env \<Rightarrow> event list \<times> (exn + 'x iter_state)" where
  "loop_body L cfg it env =
     (case get_next L it of
        Inl e \<Rightarrow> ([], Inl e)
      | Inr (next_run, it') \<Rightarrow>
          if next_run \<le> now_check env then
            ([Log WARNING (Next_run_in_past next_run)], Inr it')
          else
            let announce = [Log INFO (Next_run_at next_run (next_run - now_log env))];
                secs = next_run - now_sleep env
            in if secs < 0 then
                 (announce, Inl (ValueError ''sleep length must be non-negative''))
               else
                 (case sleep_result env of
                    Sleep_interrupted \<Rightarrow>
                      (announce @ [Sleep secs, Log INFO Exiting], Inl (Exit 0))
                  | Slept \<Rightarrow>
                      (case run_job cfg (run_result env) of
                         (evs, Some e) \<Rightarrow> (announce @ [Sleep secs] @ evs, Inl e)
                       | (evs, None) \<Rightarrow> (announce @ [Sleep secs] @ evs, Inr it'))))"

text \<open>
  Lines 58-100, \<^verbatim>\<open>while True\<close>. The loop has no exit of its own, so the model runs it
  for as many iterations as there are answers of the outside world: \<open>Inr it\<close> says that
  the loop is still running, at its head, when the answers are used up.
\<close>

fun main_loop ::
  "'x cronlib \<Rightarrow> config \<Rightarrow> 'x iter_state \<Rightarrow> cycle_env list \<Rightarrow> event list \<times> (exn + 'x iter_state)" where
  "main_loop L cfg it [] = ([], Inr it)"
| "main_loop L cfg it (env # envs) =
     (case loop_body L cfg it env of
        (evs, Inl e) \<Rightarrow> (evs, Inl e)
      | (evs, Inr it') \<Rightarrow>
          (case main_loop L cfg it' envs of (evs', r) \<Rightarrow> (evs @ evs', r)))"

text \<open>Lines 47-100, \<^verbatim>\<open>main\<close>; \<open>start\<close> is the reading of the clock at line 56.\<close>

definition main ::
  "'x cronlib \<Rightarrow> config \<Rightarrow> timestamp \<Rightarrow> cycle_env list \<Rightarrow> event list \<times> (exn + 'x iter_state)" where
  "main L cfg start envs =
     (let startup = setup_logging cfg
            @ [Log INFO (Running_with_cron (cron cfg)),
               Log INFO (Command_line (join_space (command cfg)))]
      in case croniter L (cron cfg) start of
           Inl e \<Rightarrow> (startup, Inl e)
         | Inr it \<Rightarrow>
             (case main_loop L cfg it envs of (evs, r) \<Rightarrow> (startup @ evs, r)))"

text \<open>
  Line 104, \<^verbatim>\<open>typer.run(main)\<close>: \<^verbatim>\<open>typer.Exit(code)\<close> ends the process with
  \<open>code\<close>, any other exception that leaves \<^verbatim>\<open>main\<close> ends it with status 1.
\<close>

fun exit_code :: "exn \<Rightarrow> int" where
  "exit_code (Exit code) = code"
| "exit_code e = 1"

text \<open>
  The whole process: its trace and its exit status, \<open>None\<close> while it is still running.
\<close>

definition typer_run :: "event list \<times> (exn + 'a) \<Rightarrow> event list \<times> int option" where
  "typer_run r =
     (case r of
        (evs, Inl e) \<Rightarrow> (evs, Some (exit_code e))
      | (evs, Inr s) \<Rightarrow> (evs, None))"

definition program ::
  "'x cronlib \<Rightarrow> config \<Rightarrow> timestamp \<Rightarrow> cycle_env list \<Rightarrow> event list \<times> int option" where
  "program L cfg start envs = typer_run (main L cfg start envs)"

subsection \<open>Sample inputs\<close>

text \<open>
  Concrete inputs on which the theorems below are instantiated. \<open>every_minute\<close> is a
  schedule calculator that accepts the one expression \<^verbatim>\<open>* * * * *\<close> and answers with
  the next full minute after the cursor.
\<close>

definition every_minute :: "unit cronlib" where
  "every_minute =
     \<lparr>parse = (\<lambda>s. if s = ''* * * * *'' then Some () else None),
      next_after = (\<lambda>x t. Some ((t div 60000000 + 1) * 60000000))\<rparr>"

definition backup_job :: config where
  "backup_job =
     \<lparr>command = [''backup'', ''--all''], cron = ''* * * * *'', quiet = False,
      exit_on_error = False, ignored_codes = [], no_richuru = False, stdin = False,
      stderr_to_stdout = False, no_output = False\<rparr>"

text \<open>
  An iteration during which the clock reads \<open>t\<close> at each of its three readings, the
  sleep is not interrupted and the command has the outcome \<open>r\<close>.
\<close>

definition on_time :: "timestamp \<Rightarrow> run_outcome \<Rightarrow> cycle_env" where
  "on_time t r =
     \<lparr>now_check = t, now_log = t, now_sleep = t, sleep_result = Slept, run_result = r\<rparr>"

text \<open>
  An iteration whose clock reads \<open>k + 1\<close> minutes: started at time 0, the loop over
  \<open>every_minute\<close> finds, in iteration \<open>k\<close>, a next run that is exactly now.
\<close>

definition racing :: "nat \<Rightarrow> cycle_env" where
  "racing k = on_time ((int k + 1) * 60000000) (Returned 0)"

section \<open>Properties\<close>

subsection \<open>Auxiliary facts\<close>

lemmas sample_defs = every_minute_def backup_job_def on_time_def racing_def

lemmas model_defs = program_def typer_run_def main_def croniter_def get_next_def loop_body_def
  run_job_def try_body_def except_clauses_def run_args_def setup_logging_def Let_def

text \<open>An iteration that comes back to the head of the loop is followed by the next one.\<close>

lemma main_loop_continue:
  "loop_body L cfg it env = (evs, Inr it') \<Longrightarrow>
   main_loop L cfg it (env # envs) =
     (evs @ fst (main_loop L cfg it' envs), snd (main_loop L cfg it' envs))"
  by (simp add: case_prod_unfold)

lemma main_loop_raise:
  "loop_body L cfg it env = (evs, Inl e) \<Longrightarrow> main_loop L cfg it (env # envs) = (evs, Inl e)"
  by simp

text \<open>
  An iteration whose next run is in the future, at both readings of the clock, and whose
  sleep is not interrupted, runs the command.
\<close>

lemma loop_body_wakes:
  assumes "get_next L it = Inr (t, it')" and "now_check env < t" and "now_sleep env \<le> t"
    and "sleep_result env = Slept"
  shows "loop_body L cfg it env =
     ([Log INFO (Next_run_at t (t - now_log env)), Sleep (t - now_sleep env)]
        @ fst (run_job cfg (run_result env)),
      case snd (run_job cfg (run_result env)) of None \<Rightarrow> Inr it' | Some e \<Rightarrow> Inl e)"
  using assms by (simp add: loop_body_def Let_def split: prod.splits option.splits)

text \<open>The four ways \<open>run_job\<close> can go that the claims are about.\<close>

lemma run_job_tolerated:
  "rc \<noteq> 0 \<Longrightarrow> \<not> exit_on_error cfg \<or> rc \<in> set (ignored_codes cfg) \<Longrightarrow>
   run_job cfg (Returned rc) =
     ([Log INFO Running_job, Log DEBUG (Running_command (join_space (command cfg))),
       Run (run_args cfg), Log ERROR (Exited_with_status rc),
       Log INFO (Exited_with_status rc)], None)"
  by (auto simp add: run_job_def try_body_def except_clauses_def)

lemma run_job_zero:
  "run_job cfg (Returned 0) =
     ([Log INFO Running_job, Log DEBUG (Running_command (join_space (command cfg))),
       Run (run_args cfg), Log INFO (Exited_with_status 0)], None)"
  by (simp add: run_job_def try_body_def except_clauses_def)

lemma run_job_failure:
  "is_Exception e \<Longrightarrow>
   run_job cfg (Raised e) =
     ([Log INFO Running_job, Log DEBUG (Running_command (join_space (command cfg))),
       Run (run_args cfg), Log ERROR (Error_running e)], None)"
  by (auto simp add: run_job_def try_body_def except_clauses_def)

lemma run_job_interrupt:
  "run_job cfg (Raised KeyboardInterrupt) =
     ([Log INFO Running_job, Log DEBUG (Running_command (join_space (command cfg))),
       Run (run_args cfg), Log INFO Exiting], Some (Exit 0))"
  by (simp add: run_job_def try_body_def except_clauses_def)

subsection \<open>Exit on error\<close>

text \<open>
  Claim C1 says that with \<open>exit_on_error\<close> set, a command that exits with a non-zero code
  outside \<open>ignored_codes\<close> ends the loop, the process exiting with that code. The code
  does not do that. Line 92 raises \<^verbatim>\<open>typer.Exit(result.returncode)\<close> inside the
  \<^verbatim>\<open>try\<close> of line 80, \<^verbatim>\<open>typer.Exit\<close> is a \<^verbatim>\<open>RuntimeError\<close>, and the clause
  \<^verbatim>\<open>except Exception\<close> of line 98 catches it, logs it and continues. Here the command
  exits with 2 twice, \<open>exit_on_error\<close> is set and no code is ignored: after both runs the
  process has no exit status, and each \<^verbatim>\<open>typer.Exit\<close> was logged as an error of the
  command.
\<close>

theorem exit_on_error_is_swallowed:
  "program every_minute (backup_job\<lparr>exit_on_error := True\<rparr>) 5
     [on_time 7 (Returned 2), on_time 60000001 (Returned 2)] =
   ([Install_richuru, Log INFO (Running_with_cron ''* * * * *''),
     Log INFO (Command_line ''backup --all''),
     Log INFO (Next_run_at 60000000 59999993), Sleep 59999993,
     Log INFO Running_job, Log DEBUG (Running_command ''backup --all''),
     Run \<lparr>args = [''backup'', ''--all''], p_stdin = DEVNULL,
          p_stdout = Sys_stdout, p_stderr = Sys_stderr\<rparr>,
     Log ERROR (Exited_with_status 2), Log ERROR (Error_running (Exit 2)),
     Log INFO (Next_run_at 120000000 59999999), Sleep 59999999,
     Log INFO Running_job, Log DEBUG (Running_command ''backup --all''),
     Run \<lparr>args = [''backup'', ''--all''], p_stdin = DEVNULL,
          p_stdout = Sys_stdout, p_stderr = Sys_stderr\<rparr>,
     Log ERROR (Exited_with_status 2), Log ERROR (Error_running (Exit 2))],
    None)"
  by (simp add: model_defs sample_defs)

subsection \<open>Outcomes of the command that keep the loop running\<close>

text \<open>
  Claim C3: a failure to start or complete the command never ends the loop, whatever the
  configuration (\<open>exit_on_error\<close> included); the failure is logged and the loop goes on.
  In an iteration that reaches the command, if \<^verbatim>\<open>subprocess.run\<close> raises an
  \<^verbatim>\<open>Exception\<close>, the iteration logs it as an error and the loop runs on from its
  head, with the advanced iterator, on the rest of the outside world's answers.
\<close>

theorem spawn_failure_continues:
  assumes "get_next L it = Inr (t, it')" and "now_check env < t" and "now_sleep env \<le> t"
    and "sleep_result env = Slept" and "run_result env = Raised e" and "is_Exception e"
  shows "main_loop L cfg it (env # envs) =
     ([Log INFO (Next_run_at t (t - now_log env)), Sleep (t - now_sleep env),
       Log INFO Running_job, Log DEBUG (Running_command (join_space (command cfg))),
       Run (run_args cfg), Log ERROR (Error_running e)]
        @ fst (main_loop L cfg it' envs),
      snd (main_loop L cfg it' envs))"
proof -
  have "loop_body L cfg it env =
     ([Log INFO (Next_run_at t (t - now_log env)), Sleep (t - now_sleep env),
       Log INFO Running_job, Log DEBUG (Running_command (join_space (command cfg))),
       Run (run_args cfg), Log ERROR (Error_running e)], Inr it')"
    using assms by (simp add: loop_body_wakes run_job_failure)
  then show ?thesis by (rule main_loop_continue)
qed

theorem spawn_failure_continues_witness:
  "get_next every_minute \<lparr>expr = (), cur = 5\<rparr> = Inr (60000000, \<lparr>expr = (), cur = 60000000\<rparr>)
   \<and> now_check (on_time 7 (Raised (OSError ''No such file or directory''))) < 60000000
   \<and> now_sleep (on_time 7 (Raised (OSError ''No such file or directory''))) \<le> 60000000
   \<and> sleep_result (on_time 7 (Raised (OSError ''No such file or directory''))) = Slept
   \<and> is_Exception (OSError ''No such file or directory'')
   \<and> main_loop every_minute (backup_job\<lparr>exit_on_error := True\<rparr>) \<lparr>expr = (), cur = 5\<rparr>
       [on_time 7 (Raised (OSError ''No such file or directory''))] =
     ([Log INFO (Next_run_at 60000000 59999993), Sleep 59999993,
       Log INFO Running_job, Log DEBUG (Running_command ''backup --all''),
       Run \<lparr>args = [''backup'', ''--all''], p_stdin = DEVNULL,
            p_stdout = Sys_stdout, p_stderr = Sys_stderr\<rparr>,
       Log ERROR (Error_running (OSError ''No such file or directory''))],
      Inr \<lparr>expr = (), cur = 60000000\<rparr>)"
  using spawn_failure_continues [of every_minute "\<lparr>expr = (), cur = 5\<rparr>" 60000000
      "\<lparr>expr = (), cur = 60000000\<rparr>" "on_time 7 (Raised (OSError ''No such file or directory''))"
      "OSError ''No such file or directory''" "backup_job\<lparr>exit_on_error := True\<rparr>" "[]"]
  by (simp add: get_next_def run_args_def sample_defs)


text \<open>
  Claim C5: when \<open>exit_on_error\<close> is off, or the command's non-zero exit code is one of
  \<open>ignored_codes\<close>, a non-zero exit never ends the loop. In an iteration that reaches
  the command, such an exit is logged and the loop runs on from its head, with the
  advanced iterator, on the rest of the outside world's answers; the rest is arbitrary, so
  this holds across any number of iterations.
\<close>

theorem tolerated_exit_continues:
  assumes "get_next L it = Inr (t, it')" and "now_check env < t" and "now_sleep env \<le> t"
    and "sleep_result env = Slept" and "run_result env = Returned rc" and "rc \<noteq> 0"
    and "\<not> exit_on_error cfg \<or> rc \<in> set (ignored_codes cfg)"
  shows "main_loop L cfg it (env # envs) =
     ([Log INFO (Next_run_at t (t - now_log env)), Sleep (t - now_sleep env),
       Log INFO Running_job, Log DEBUG (Running_command (join_space (command cfg))),
       Run (run_args cfg), Log ERROR (Exited_with_status rc),
       Log INFO (Exited_with_status rc)]
        @ fst (main_loop L cfg it' envs),
      snd (main_loop L cfg it' envs))"
proof -
  have "run_job cfg (run_result env) =
     ([Log INFO Running_job, Log DEBUG (Running_command (join_space (command cfg))),
       Run (run_args cfg), Log ERROR (Exited_with_status rc),
       Log INFO (Exited_with_status rc)], None)"
    using assms(5-7) run_job_tolerated [of rc cfg] by simp
  with assms(1-4) have "loop_body L cfg it env =
     ([Log INFO (Next_run_at t (t - now_log env)), Sleep (t - now_sleep env),
       Log INFO Running_job, Log DEBUG (Running_command (join_space (command cfg))),
       Run (run_args cfg), Log ERROR (Exited_with_status rc),
       Log INFO (Exited_with_status rc)], Inr it')"
    by (simp add: loop_body_wakes)
  then show ?thesis by (rule main_loop_continue)
qed

theorem tolerated_exit_continues_witness:
  "get_next every_minute \<lparr>expr = (), cur = 5\<rparr> = Inr (60000000, \<lparr>expr = (), cur = 60000000\<rparr>)
   \<and> now_check (on_time 7 (Returned 1)) < 60000000
   \<and> now_sleep (on_time 7 (Returned 1)) \<le> 60000000
   \<and> sleep_result (on_time 7 (Returned 1)) = Slept
   \<and> run_result (on_time 7 (Returned 1)) = Returned 1
   \<and> \<not> exit_on_error backup_job
   \<and> main_loop every_minute backup_job \<lparr>expr = (), cur = 5\<rparr>
       [on_time 7 (Returned 1), on_time 60000001 (Returned 1)] =
     ([Log INFO (Next_run_at 60000000 59999993), Sleep 59999993,
       Log INFO Running_job, Log DEBUG (Running_command ''backup --all''),
       Run \<lparr>args = [''backup'', ''--all''], p_stdin = DEVNULL,
            p_stdout = Sys_stdout, p_stderr = Sys_stderr\<rparr>,
       Log ERROR (Exited_with_status 1), Log INFO (Exited_with_status 1),
       Log INFO (Next_run_at 120000000 59999999), Sleep 59999999,
       Log INFO Running_job, Log DEBUG (Running_command ''backup --all''),
       Run \<lparr>args = [''backup'', ''--all''], p_stdin = DEVNULL,
            p_stdout = Sys_stdout, p_stderr = Sys_stderr\<rparr>,
       Log ERROR (Exited_with_status 1), Log INFO (Exited_with_status 1)],
      Inr \<lparr>expr = (), cur = 120000000\<rparr>)
   \<and> 2 \<in> set (ignored_codes (backup_job\<lparr>exit_on_error := True, ignored_codes := [2]\<rparr>))
   \<and> main_loop every_minute (backup_job\<lparr>exit_on_error := True, ignored_codes := [2]\<rparr>)
       \<lparr>expr = (), cur = 5\<rparr> [on_time 7 (Returned 2)] =
     ([Log INFO (Next_run_at 60000000 59999993), Sleep 59999993,
       Log INFO Running_job, Log DEBUG (Running_command ''backup --all''),
       Run \<lparr>args = [''backup'', ''--all''], p_stdin = DEVNULL,
            p_stdout = Sys_stdout, p_stderr = Sys_stderr\<rparr>,
       Log ERROR (Exited_with_status 2), Log INFO (Exited_with_status 2)],
      Inr \<lparr>expr = (), cur = 60000000\<rparr>)"
  using tolerated_exit_continues [of every_minute "\<lparr>expr = (), cur = 5\<rparr>" 60000000
      "\<lparr>expr = (), cur = 60000000\<rparr>" "on_time 7 (Returned 1)" 1 backup_job
      "[on_time 60000001 (Returned 1)]"]
    tolerated_exit_continues [of every_minute "\<lparr>expr = (), cur = 60000000\<rparr>" 120000000
      "\<lparr>expr = (), cur = 120000000\<rparr>" "on_time 60000001 (Returned 1)" 1 backup_job "[]"]
    tolerated_exit_continues [of every_minute "\<lparr>expr = (), cur = 5\<rparr>" 60000000
      "\<lparr>expr = (), cur = 60000000\<rparr>" "on_time 7 (Returned 2)" 2
      "backup_job\<lparr>exit_on_error := True, ignored_codes := [2]\<rparr>" "[]"]
  by (simp add: get_next_def run_args_def sample_defs)

text \<open>
  Claim C10: a command that exits with code 0 never ends the loop, whatever
  \<open>exit_on_error\<close> and \<open>ignored_codes\<close> are.
\<close>

theorem zero_exit_continues:
  assumes "get_next L it = Inr (t, it')" and "now_check env < t" and "now_sleep env \<le> t"
    and "sleep_result env = Slept" and "run_result env = Returned 0"
  shows "main_loop L cfg it (env # envs) =
     ([Log INFO (Next_run_at t (t - now_log env)), Sleep (t - now_sleep env),
       Log INFO Running_job, Log DEBUG (Running_command (join_space (command cfg))),
       Run (run_args cfg), Log INFO (Exited_with_status 0)]
        @ fst (main_loop L cfg it' envs),
      snd (main_loop L cfg it' envs))"
proof -
  have "loop_body L cfg it env =
     ([Log INFO (Next_run_at t (t - now_log env)), Sleep (t - now_sleep env),
       Log INFO Running_job, Log DEBUG (Running_command (join_space (command cfg))),
       Run (run_args cfg), Log INFO (Exited_with_status 0)], Inr it')"
    using assms by (simp add: loop_body_wakes run_job_zero)
  then show ?thesis by (rule main_loop_continue)
qed

theorem zero_exit_continues_witness:
  "get_next every_minute \<lparr>expr = (), cur = 5\<rparr> = Inr (60000000, \<lparr>expr = (), cur = 60000000\<rparr>)
   \<and> now_check (on_time 7 (Returned 0)) < 60000000
   \<and> now_sleep (on_time 7 (Returned 0)) \<le> 60000000
   \<and> sleep_result (on_time 7 (Returned 0)) = Slept
   \<and> run_result (on_time 7 (Returned 0)) = Returned 0
   \<and> main_loop every_minute (backup_job\<lparr>exit_on_error := True\<rparr>) \<lparr>expr = (), cur = 5\<rparr>
       [on_time 7 (Returned 0)] =
     ([Log INFO (Next_run_at 60000000 59999993), Sleep 59999993,
       Log INFO Running_job, Log DEBUG (Running_command ''backup --all''),
       Run \<lparr>args = [''backup'', ''--all''], p_stdin = DEVNULL,
            p_stdout = Sys_stdout, p_stderr = Sys_stderr\<rparr>,
       Log INFO (Exited_with_status 0)],
      Inr \<lparr>expr = (), cur = 60000000\<rparr>)"
  using zero_exit_continues [of every_minute "\<lparr>expr = (), cur = 5\<rparr>" 60000000
      "\<lparr>expr = (), cur = 60000000\<rparr>" "on_time 7 (Returned 0)"
      "backup_job\<lparr>exit_on_error := True\<rparr>" "[]"]
  by (simp add: get_next_def run_args_def sample_defs)


subsection \<open>Operator interrupts\<close>

text \<open>
  Claim C6: an operator interrupt during the wait or during the command ends the process
  with exit status 0; during the wait the pending command is not started, and during the
  command the loop attempts no further iteration. In an iteration whose next run is in
  the future: if the sleep is interrupted, the trace ends with the sleep and the exit
  message, with no call of \<^verbatim>\<open>subprocess.run\<close>, and the status is 0; if
  \<^verbatim>\<open>subprocess.run\<close> is interrupted, the trace ends with that call and the exit
  message and the status is 0. In both cases the later answers \<open>envs\<close> of the outside
  world are not used.
\<close>

theorem interrupt_exits_zero:
  assumes "get_next L it = Inr (t, it')" and "now_check env < t" and "now_sleep env \<le> t"
  shows "(sleep_result env = Sleep_interrupted \<longrightarrow>
           typer_run (main_loop L cfg it (env # envs)) =
             ([Log INFO (Next_run_at t (t - now_log env)), Sleep (t - now_sleep env),
               Log INFO Exiting], Some 0))
       \<and> (sleep_result env = Slept \<and> run_result env = Raised KeyboardInterrupt \<longrightarrow>
           typer_run (main_loop L cfg it (env # envs)) =
             ([Log INFO (Next_run_at t (t - now_log env)), Sleep (t - now_sleep env),
               Log INFO Running_job,
               Log DEBUG (Running_command (join_space (command cfg))),
               Run (run_args cfg), Log INFO Exiting], Some 0))"
proof (intro conjI impI)
  assume "sleep_result env = Sleep_interrupted"
  with assms have "loop_body L cfg it env =
      ([Log INFO (Next_run_at t (t - now_log env)), Sleep (t - now_sleep env),
        Log INFO Exiting], Inl (Exit 0))"
    by (simp add: loop_body_def Let_def)
  then have "main_loop L cfg it (env # envs) =
      ([Log INFO (Next_run_at t (t - now_log env)), Sleep (t - now_sleep env),
        Log INFO Exiting], Inl (Exit 0))"
    by (rule main_loop_raise)
  then show "typer_run (main_loop L cfg it (env # envs)) =
      ([Log INFO (Next_run_at t (t - now_log env)), Sleep (t - now_sleep env),
        Log INFO Exiting], Some 0)"
    by (simp add: typer_run_def)
next
  assume "sleep_result env = Slept \<and> run_result env = Raised KeyboardInterrupt"
  with assms have "loop_body L cfg it env =
      ([Log INFO (Next_run_at t (t - now_log env)), Sleep (t - now_sleep env),
        Log INFO Running_job, Log DEBUG (Running_command (join_space (command cfg))),
        Run (run_args cfg), Log INFO Exiting], Inl (Exit 0))"
    by (simp add: loop_body_wakes run_job_interrupt)
  then have "main_loop L cfg it (env # envs) =
      ([Log INFO (Next_run_at t (t - now_log env)), Sleep (t - now_sleep env),
        Log INFO Running_job, Log DEBUG (Running_command (join_space (command cfg))),
        Run (run_args cfg), Log INFO Exiting], Inl (Exit 0))"
    by (rule main_loop_raise)
  then show "typer_run (main_loop L cfg it (env # envs)) =
      ([Log INFO (Next_run_at t (t - now_log env)), Sleep (t - now_sleep env),
        Log INFO Running_job, Log DEBUG (Running_command (join_space (command cfg))),
        Run (run_args cfg), Log INFO Exiting], Some 0)"
    by (simp add: typer_run_def)
qed

theorem interrupt_exits_zero_witness:
  "get_next every_minute \<lparr>expr = (), cur = 5\<rparr> = Inr (60000000, \<lparr>expr = (), cur = 60000000\<rparr>)
   \<and> now_check ((on_time 7 (Returned 0))\<lparr>sleep_result := Sleep_interrupted\<rparr>) < 60000000
   \<and> now_sleep ((on_time 7 (Returned 0))\<lparr>sleep_result := Sleep_interrupted\<rparr>) \<le> 60000000
   \<and> sleep_result ((on_time 7 (Returned 0))\<lparr>sleep_result := Sleep_interrupted\<rparr>) = Sleep_interrupted
   \<and> typer_run (main_loop every_minute backup_job \<lparr>expr = (), cur = 5\<rparr>
        [(on_time 7 (Returned 0))\<lparr>sleep_result := Sleep_interrupted\<rparr>,
         on_time 60000001 (Returned 0)]) =
       ([Log INFO (Next_run_at 60000000 59999993), Sleep 59999993, Log INFO Exiting], Some 0)
   \<and> sleep_result (on_time 7 (Raised KeyboardInterrupt)) = Slept
   \<and> run_result (on_time 7 (Raised KeyboardInterrupt)) = Raised KeyboardInterrupt
   \<and> typer_run (main_loop every_minute backup_job \<lparr>expr = (), cur = 5\<rparr>
        [on_time 7 (Raised KeyboardInterrupt), on_time 60000001 (Returned 0)]) =
       ([Log INFO (Next_run_at 60000000 59999993), Sleep 59999993,
         Log INFO Running_job, Log DEBUG (Running_command ''backup --all''),
         Run \<lparr>args = [''backup'', ''--all''], p_stdin = DEVNULL,
              p_stdout = Sys_stdout, p_stderr = Sys_stderr\<rparr>,
         Log INFO Exiting], Some 0)"
  using interrupt_exits_zero [of every_minute "\<lparr>expr = (), cur = 5\<rparr>" 60000000
      "\<lparr>expr = (), cur = 60000000\<rparr>"
      "(on_time 7 (Returned 0))\<lparr>sleep_result := Sleep_interrupted\<rparr>" backup_job
      "[on_time 60000001 (Returned 0)]"]
    interrupt_exits_zero [of every_minute "\<lparr>expr = (), cur = 5\<rparr>" 60000000
      "\<lparr>expr = (), cur = 60000000\<rparr>" "on_time 7 (Raised KeyboardInterrupt)" backup_job
      "[on_time 60000001 (Returned 0)]"]
  by (simp add: get_next_def run_args_def sample_defs)

subsection \<open>An expression that cannot be parsed\<close>

text \<open>
  Claim C4: a cron expression that cannot be parsed ends the program with a non-zero exit
  status at startup, before the loop, before any wait and before any run of the command.
  When the calculator rejects the expression, the constructor of line 56 raises, nothing
  catches the exception, and the process exits with status 1 whatever the outside world
  would have answered; its trace is the logger's setup and the two startup messages, so
  it holds no sleep and no run.
\<close>

theorem unparsable_cron_is_fatal:
  assumes "parse L (cron cfg) = None"
  shows "program L cfg start envs =
      (setup_logging cfg @
       [Log INFO (Running_with_cron (cron cfg)),
        Log INFO (Command_line (join_space (command cfg)))], Some 1)
    \<and> (\<forall>ev \<in> set (fst (program L cfg start envs)).
          (\<forall>d. ev \<noteq> Sleep d) \<and> (\<forall>p. ev \<noteq> Run p))"
proof -
  have run: "program L cfg start envs =
      (setup_logging cfg @
       [Log INFO (Running_with_cron (cron cfg)),
        Log INFO (Command_line (join_space (command cfg)))], Some 1)"
    using assms by (simp add: program_def typer_run_def main_def croniter_def)
  have "\<forall>ev \<in> set (setup_logging cfg). (\<forall>d. ev \<noteq> Sleep d) \<and> (\<forall>p. ev \<noteq> Run p)"
    by (simp add: setup_logging_def)
  with run show ?thesis by simp
qed

theorem unparsable_cron_is_fatal_witness:
  "parse every_minute (cron (backup_job\<lparr>cron := ''99 * * * *''\<rparr>)) = None
   \<and> program every_minute (backup_job\<lparr>cron := ''99 * * * *''\<rparr>) 5
       [on_time 7 (Returned 0)] =
     ([Install_richuru, Log INFO (Running_with_cron ''99 * * * *''),
       Log INFO (Command_line ''backup --all'')], Some 1)"
  using unparsable_cron_is_fatal [of every_minute "backup_job\<lparr>cron := ''99 * * * *''\<rparr>" 5
      "[on_time 7 (Returned 0)]"]
  by (simp add: setup_logging_def sample_defs)

subsection \<open>The standard streams of the command\<close>

text \<open>
  Claim C8 says that with \<open>stderr_to_stdout\<close> set the command's standard error goes to
  the same destination as its standard output, also when \<open>no_output\<close> is set. It does
  not: with both options set, standard output is discarded while standard error goes to
  the scheduler's own standard output.
\<close>

theorem stderr_follows_stdout_counterexample:
  "stderr_to_stdout (backup_job\<lparr>stderr_to_stdout := True, no_output := True\<rparr>)
   \<and> p_stdout (run_args (backup_job\<lparr>stderr_to_stdout := True, no_output := True\<rparr>)) = DEVNULL
   \<and> p_stderr (run_args (backup_job\<lparr>stderr_to_stdout := True, no_output := True\<rparr>)) = Sys_stdout
   \<and> p_stderr (run_args (backup_job\<lparr>stderr_to_stdout := True, no_output := True\<rparr>))
       \<noteq> p_stdout (run_args (backup_job\<lparr>stderr_to_stdout := True, no_output := True\<rparr>))"
  by (simp add: run_args_def backup_job_def)

text \<open>
  Claim C8, amended: with \<open>stderr_to_stdout\<close> set, the command's standard error goes to
  the scheduler's own standard output; that is the destination of the command's standard
  output exactly when \<open>no_output\<close> is not set.
\<close>

theorem stderr_to_scheduler_stdout:
  assumes "stderr_to_stdout cfg"
  shows "p_stderr (run_args cfg) = Sys_stdout
    \<and> ((p_stderr (run_args cfg) = p_stdout (run_args cfg)) = (\<not> no_output cfg))"
  using assms by (simp add: run_args_def)

theorem stderr_to_scheduler_stdout_witness:
  "stderr_to_stdout (backup_job\<lparr>stderr_to_stdout := True\<rparr>)
   \<and> p_stderr (run_args (backup_job\<lparr>stderr_to_stdout := True\<rparr>)) = Sys_stdout
   \<and> p_stderr (run_args (backup_job\<lparr>stderr_to_stdout := True\<rparr>))
       = p_stdout (run_args (backup_job\<lparr>stderr_to_stdout := True\<rparr>))
   \<and> \<not> no_output (backup_job\<lparr>stderr_to_stdout := True\<rparr>)"
  using stderr_to_scheduler_stdout [of "backup_job\<lparr>stderr_to_stdout := True\<rparr>"]
  by (simp add: backup_job_def run_args_def)

text \<open>Every call of \<^verbatim>\<open>subprocess.run\<close> is made with the arguments \<open>run_args\<close>.\<close>

lemma run_job_runs:
  "Run p \<in> set (fst (run_job cfg r)) \<Longrightarrow> p = run_args cfg"
  by (auto simp add: run_job_def try_body_def except_clauses_def
      split: run_outcome.splits if_splits option.splits)

lemma loop_body_runs:
  "Run p \<in> set (fst (loop_body L cfg it env)) \<Longrightarrow> p = run_args cfg"
  using run_job_runs [of p cfg "run_result env"]
  by (auto simp add: loop_body_def Let_def
      split: sum.splits prod.splits if_splits sleep_outcome.splits option.splits)

lemma main_loop_runs:
  "Run p \<in> set (fst (main_loop L cfg it envs)) \<Longrightarrow> p = run_args cfg"
proof (induction envs arbitrary: it)
  case Nil
  then show ?case by simp
next
  case (Cons env envs)
  obtain evs r where body: "loop_body L cfg it env = (evs, r)"
    by (cases "loop_body L cfg it env")
  show ?case
  proof (cases r)
    case (Inl e)
    with body Cons.prems have "Run p \<in> set (fst (loop_body L cfg it env))" by simp
    then show ?thesis by (rule loop_body_runs)
  next
    case (Inr it')
    with body have "fst (main_loop L cfg it (env # envs)) =
        fst (loop_body L cfg it env) @ fst (main_loop L cfg it' envs)"
      by (simp add: case_prod_unfold)
    with Cons.prems have "Run p \<in> set (fst (loop_body L cfg it env))
        \<or> Run p \<in> set (fst (main_loop L cfg it' envs))"
      by auto
    then show ?thesis using loop_body_runs Cons.IH by blast
  qed
qed

lemma program_runs:
  assumes "Run p \<in> set (fst (program L cfg start envs))"
  shows "p = run_args cfg"
proof (cases "croniter L (cron cfg) start")
  case (Inl e)
  with assms show ?thesis
    by (auto simp add: program_def typer_run_def main_def setup_logging_def Let_def
        split: if_splits)
next
  case (Inr it)
  with assms have "Run p \<in> set (fst (main_loop L cfg it envs))"
    by (auto simp add: program_def typer_run_def main_def setup_logging_def Let_def
        split: if_splits sum.splits prod.splits)
  then show ?thesis by (rule main_loop_runs)
qed

text \<open>
  Claim C9: with \<open>stdin\<close> off, the command's standard input is not the scheduler's
  standard input but the null device (a read meets the end of the file at once); with
  \<open>stdin\<close> on it is the scheduler's own standard input. Whatever the outside world
  answers, every call of \<^verbatim>\<open>subprocess.run\<close> in the trace of the program is wired
  that way.
\<close>

theorem stdin_wiring:
  "\<forall>p. Run p \<in> set (fst (program L cfg start envs)) \<longrightarrow>
     p_stdin p = (if stdin cfg then Sys_stdin else DEVNULL)"
proof (intro allI impI)
  fix p assume "Run p \<in> set (fst (program L cfg start envs))"
  then have "p = run_args cfg" by (rule program_runs)
  then show "p_stdin p = (if stdin cfg then Sys_stdin else DEVNULL)"
    by (simp add: run_args_def)
qed

theorem stdin_wiring_witness:
  "Run \<lparr>args = [''backup'', ''--all''], p_stdin = DEVNULL,
        p_stdout = Sys_stdout, p_stderr = Sys_stderr\<rparr>
     \<in> set (fst (program every_minute backup_job 5 [on_time 7 (Returned 0)]))
   \<and> \<not> stdin backup_job
   \<and> Run \<lparr>args = [''backup'', ''--all''], p_stdin = Sys_stdin,
        p_stdout = Sys_stdout, p_stderr = Sys_stderr\<rparr>
     \<in> set (fst (program every_minute (backup_job\<lparr>stdin := True\<rparr>) 5 [on_time 7 (Returned 0)]))
   \<and> stdin (backup_job\<lparr>stdin := True\<rparr>)
   \<and> (\<exists>p. Run p \<in> set (fst (program every_minute backup_job 5 [on_time 7 (Returned 0)]))
        \<and> p_stdin p = DEVNULL)"
proof -
  have a: "Run \<lparr>args = [''backup'', ''--all''], p_stdin = DEVNULL,
        p_stdout = Sys_stdout, p_stderr = Sys_stderr\<rparr>
     \<in> set (fst (program every_minute backup_job 5 [on_time 7 (Returned 0)]))"
    by (simp add: model_defs sample_defs)
  have b: "Run \<lparr>args = [''backup'', ''--all''], p_stdin = Sys_stdin,
        p_stdout = Sys_stdout, p_stderr = Sys_stderr\<rparr>
     \<in> set (fst (program every_minute (backup_job\<lparr>stdin := True\<rparr>) 5 [on_time 7 (Returned 0)]))"
    by (simp add: model_defs sample_defs)
  have c: "\<not> stdin backup_job" "stdin (backup_job\<lparr>stdin := True\<rparr>)"
    by (simp_all add: backup_job_def)
  from a stdin_wiring [of every_minute backup_job 5 "[on_time 7 (Returned 0)]"] c
  have "\<exists>p. Run p \<in> set (fst (program every_minute backup_job 5 [on_time 7 (Returned 0)]))
        \<and> p_stdin p = DEVNULL"
    by auto
  with a b c show ?thesis by simp
qed


subsection \<open>The requery loop\<close>

text \<open>The events of the first iteration open the trace of the loop.\<close>

lemma main_loop_prefix:
  "\<exists>rest. fst (main_loop L cfg it (env # envs)) = fst (loop_body L cfg it env) @ rest"
  by (cases "loop_body L cfg it env") (auto split: sum.splits prod.splits)

text \<open>An iteration whose next run is in the future announces it first.\<close>

lemma loop_body_announces:
  assumes "get_next L it = Inr (t, it')" and "now_check env < t"
  shows "\<exists>rest. fst (loop_body L cfg it env) =
     Log INFO (Next_run_at t (t - now_log env)) # rest"
  using assms
  by (auto simp add: loop_body_def Let_def split: sleep_outcome.splits prod.splits option.splits)

text \<open>An iteration whose next run is not in the future warns and goes back to the head.\<close>

lemma loop_body_requery:
  assumes "get_next L it = Inr (t, it')" and "t \<le> now_check env"
  shows "loop_body L cfg it env = ([Log WARNING (Next_run_in_past t)], Inr it')"
  using assms by (simp add: loop_body_def)

text \<open>
  The loop over \<open>every_minute\<close>, started at a full minute \<open>k\<close> with the clock one minute
  ahead at each check: every iteration finds a next run that is exactly now.
\<close>

lemma racing_requeries:
  "main_loop every_minute cfg \<lparr>expr = (), cur = int k * 60000000\<rparr> (map racing [k..<k + n]) =
     (map (\<lambda>j. Log WARNING (Next_run_in_past ((int j + 1) * 60000000))) [k..<k + n],
      Inr \<lparr>expr = (), cur = (int k + int n) * 60000000\<rparr>)"
proof (induction n arbitrary: k)
  case 0
  then show ?case by simp
next
  case (Suc n)
  have next_run: "get_next every_minute \<lparr>expr = (), cur = int k * 60000000\<rparr> =
      Inr ((int k + 1) * 60000000, \<lparr>expr = (), cur = int (Suc k) * 60000000\<rparr>)"
    by (simp add: get_next_def every_minute_def)
  have "(int k + 1) * 60000000 \<le> now_check (racing k)"
    by (simp add: racing_def on_time_def)
  with next_run have body: "loop_body every_minute cfg \<lparr>expr = (), cur = int k * 60000000\<rparr> (racing k) =
      ([Log WARNING (Next_run_in_past ((int k + 1) * 60000000))],
       Inr \<lparr>expr = (), cur = int (Suc k) * 60000000\<rparr>)"
    by (rule loop_body_requery)
  have split: "[k..<k + Suc n] = k # [Suc k..<Suc k + n]"
    by (simp add: upt_conv_Cons)
  show ?case
    unfolding split list.map main_loop_continue [OF body] Suc.IH [of "Suc k"]
    by (simp add: algebra_simps)
qed

text \<open>
  Claim C7 says that the requery loop always terminates, because each requery advances
  the calculator's cursor. The advancing cursor alone does not give that: the clock is
  read again at every check. Here the calculator answers with a timestamp strictly
  after its cursor, always, and the clock reads one minute more at each check (the
  process is held up, or the clock is stepped forward): after any number \<open>n\<close> of
  iterations the loop has logged \<open>n\<close> warnings, is still at its head, and has never
  announced a next run.
\<close>

theorem requery_terminates_counterexample:
  "(\<forall>c. \<exists>t. next_after every_minute () c = Some t \<and> c < t)
   \<and> (\<forall>n. main_loop every_minute backup_job \<lparr>expr = (), cur = 0\<rparr> (map racing [0..<n]) =
        (map (\<lambda>j. Log WARNING (Next_run_in_past ((int j + 1) * 60000000))) [0..<n],
         Inr \<lparr>expr = (), cur = int n * 60000000\<rparr>))
   \<and> \<not> (\<exists>n t d. Log INFO (Next_run_at t d) \<in>
          set (fst (main_loop every_minute backup_job \<lparr>expr = (), cur = 0\<rparr> (map racing [0..<n]))))"
proof (intro conjI)
  show "\<forall>c. \<exists>t. next_after every_minute () c = Some t \<and> c < t"
  proof
    fix c :: int
    have "c mod 60000000 < 60000000" by simp
    then have "c < (c div 60000000 + 1) * 60000000"
      by (simp add: algebra_simps)
    then show "\<exists>t. next_after every_minute () c = Some t \<and> c < t"
      by (simp add: every_minute_def)
  qed
  have run: "main_loop every_minute backup_job \<lparr>expr = (), cur = 0\<rparr> (map racing [0..<n]) =
        (map (\<lambda>j. Log WARNING (Next_run_in_past ((int j + 1) * 60000000))) [0..<n],
         Inr \<lparr>expr = (), cur = int n * 60000000\<rparr>)" for n
    using racing_requeries [of backup_job 0 n] by simp
  then show "\<forall>n. main_loop every_minute backup_job \<lparr>expr = (), cur = 0\<rparr> (map racing [0..<n]) =
        (map (\<lambda>j. Log WARNING (Next_run_in_past ((int j + 1) * 60000000))) [0..<n],
         Inr \<lparr>expr = (), cur = int n * 60000000\<rparr>)"
    by blast
  show "\<not> (\<exists>n t d. Log INFO (Next_run_at t d) \<in>
          set (fst (main_loop every_minute backup_job \<lparr>expr = (), cur = 0\<rparr> (map racing [0..<n]))))"
    by (auto simp add: run)
qed

text \<open>
  A cursor that moves on by at least \<open>step\<close> without passing \<open>B\<close> leaves fewer steps
  of that size below \<open>B\<close>.
\<close>

lemma fewer_steps:
  fixes B c t step :: int
  assumes "0 < step" and "c + step \<le> t" and "t \<le> B"
  shows "nat ((B - t) div step) < nat ((B - c) div step)"
proof -
  have "(B - t) div step \<le> (B - c - step) div step"
    using assms by (intro zdiv_mono1) simp_all
  moreover have "(B - c - step + step) div step = (B - c - step) div step + 1"
    using assms(1) by (simp only: div_add_self2)
  then have "(B - c - step) div step = (B - c) div step - 1"
    by simp
  moreover have "0 \<le> (B - t) div step"
    using assms by (simp add: pos_imp_zdiv_nonneg_iff)
  ultimately show ?thesis by linarith
qed

text \<open>
  Claim C7, amended: the requery loop ends provided the clock does not keep pace with the
  calculator's cursor. Whenever the next run is not strictly after the clock's reading,
  the calculator is queried again. If every answer of the calculator lies at least
  \<open>step\<close> after the cursor it is computed from (with \<open>step\<close> at least one microsecond:
  each requery strictly advances the cursor), and the clock, at the checks the loop makes
  while it has done nothing but requery, never reads more than some \<open>B\<close>, then after at
  most \<open>(B - cur it) div step\<close> requeries, each logged as a warning, the calculator
  yields a timestamp strictly after the clock's reading, which the loop announces. The
  later readings of the clock are not constrained.
\<close>

theorem requery_ends:
  assumes step: "0 < step"
    and first: "\<exists>t. next_after L (expr it) (cur it) = Some t \<and> cur it + step \<le> t"
    and again: "\<And>c t. next_after L (expr it) c = Some t \<Longrightarrow>
        \<exists>t'. next_after L (expr it) t = Some t' \<and> t + step \<le> t'"
    and bounded: "\<And>k ws it'. k < length envs \<Longrightarrow>
        main_loop L cfg it (take k envs) = (ws, Inr it') \<Longrightarrow>
        \<forall>w \<in> set ws. \<exists>u. w = Log WARNING (Next_run_in_past u) \<Longrightarrow>
        now_check (envs ! k) \<le> B"
    and enough: "nat ((B - cur it) div step) < length envs"
  shows "\<exists>k ws t rest. k \<le> nat ((B - cur it) div step) \<and> length ws = k
      \<and> (\<forall>w \<in> set ws. \<exists>u. w = Log WARNING (Next_run_in_past u))
      \<and> now_check (envs ! k) < t
      \<and> fst (main_loop L cfg it envs) =
          ws @ Log INFO (Next_run_at t (t - now_log (envs ! k))) # rest"
  using first again bounded enough
proof (induction envs arbitrary: it)
  case Nil
  then show ?case by simp
next
  case (Cons env envs)
  from Cons.prems(1) obtain t where t: "next_after L (expr it) (cur it) = Some t"
      "cur it + step \<le> t"
    by blast
  let ?it = "it\<lparr>cur := t\<rparr>"
  from t have next_run: "get_next L it = Inr (t, ?it)"
    by (simp add: get_next_def)
  show ?case
  proof (cases "t \<le> now_check env")
    case True
    with next_run have body: "loop_body L cfg it env =
        ([Log WARNING (Next_run_in_past t)], Inr ?it)"
      by (rule loop_body_requery)
    have continue: "main_loop L cfg it (env # es) =
        ([Log WARNING (Next_run_in_past t)] @ fst (main_loop L cfg ?it es),
         snd (main_loop L cfg ?it es))" for es
      using body by (rule main_loop_continue)
    have "now_check ((env # envs) ! 0) \<le> B"
      by (rule Cons.prems(3) [of 0 "[]" it]) simp_all
    with True have "t \<le> B" by simp
    with step t(2) have fewer: "nat ((B - t) div step) < nat ((B - cur it) div step)"
      by (intro fewer_steps)
    have first': "\<exists>t'. next_after L (expr ?it) (cur ?it) = Some t' \<and> cur ?it + step \<le> t'"
      using Cons.prems(2) [OF t(1)] by simp
    have again': "\<exists>t'. next_after L (expr ?it) u = Some t' \<and> u + step \<le> t'"
      if "next_after L (expr ?it) c = Some u" for c u
      using that Cons.prems(2) [of c u] by simp
    have bounded': "now_check (envs ! k) \<le> B"
      if "k < length envs" and "main_loop L cfg ?it (take k envs) = (ws, Inr it')"
        and "\<forall>w \<in> set ws. \<exists>u. w = Log WARNING (Next_run_in_past u)" for k ws it'
    proof -
      have "main_loop L cfg it (take (Suc k) (env # envs)) =
          (Log WARNING (Next_run_in_past t) # ws, Inr it')"
        using continue [of "take k envs"] that(2) by simp
      moreover have "\<forall>w \<in> set (Log WARNING (Next_run_in_past t) # ws).
          \<exists>u. w = Log WARNING (Next_run_in_past u)"
        using that(3) by simp
      moreover have "Suc k < length (env # envs)" using that(1) by simp
      ultimately have "now_check ((env # envs) ! Suc k) \<le> B"
        by (rule Cons.prems(3) [rotated])
      then show ?thesis by simp
    qed
    have "length (env # envs) = Suc (length envs)" by simp
    with fewer Cons.prems(4) have "nat ((B - t) div step) < length envs"
      by linarith
    then have enough': "nat ((B - cur ?it) div step) < length envs"
      by simp
    have "\<exists>k ws t' rest. k \<le> nat ((B - cur ?it) div step) \<and> length ws = k
        \<and> (\<forall>w \<in> set ws. \<exists>u. w = Log WARNING (Next_run_in_past u))
        \<and> now_check (envs ! k) < t'
        \<and> fst (main_loop L cfg ?it envs) =
            ws @ Log INFO (Next_run_at t' (t' - now_log (envs ! k))) # rest"
      using first' again' bounded' enough' by (rule Cons.IH)
    then obtain k ws t' rest where k: "k \<le> nat ((B - t) div step)" "length ws = k"
      and ws: "\<forall>w \<in> set ws. \<exists>u. w = Log WARNING (Next_run_in_past u)"
      and future: "now_check (envs ! k) < t'"
      and tail: "fst (main_loop L cfg ?it envs) =
            ws @ Log INFO (Next_run_at t' (t' - now_log (envs ! k))) # rest"
      by auto
    have "Suc k \<le> nat ((B - cur it) div step)" using k(1) fewer by linarith
    moreover have "length (Log WARNING (Next_run_in_past t) # ws) = Suc k"
      using k(2) by simp
    moreover have "\<forall>w \<in> set (Log WARNING (Next_run_in_past t) # ws).
        \<exists>u. w = Log WARNING (Next_run_in_past u)"
      using ws by simp
    moreover have "now_check ((env # envs) ! Suc k) < t'" using future by simp
    moreover have "fst (main_loop L cfg it (env # envs)) =
        (Log WARNING (Next_run_in_past t) # ws)
          @ Log INFO (Next_run_at t' (t' - now_log ((env # envs) ! Suc k))) # rest"
      using continue [of envs] tail by simp
    ultimately show ?thesis by blast
  next
    case False
    then have future: "now_check env < t" by simp
    with next_run obtain rest where "fst (loop_body L cfg it env) =
        Log INFO (Next_run_at t (t - now_log env)) # rest"
      using loop_body_announces by blast
    moreover obtain rest' where "fst (main_loop L cfg it (env # envs)) =
        fst (loop_body L cfg it env) @ rest'"
      using main_loop_prefix by blast
    ultimately have "fst (main_loop L cfg it (env # envs)) =
        [] @ Log INFO (Next_run_at t (t - now_log ((env # envs) ! 0))) # (rest @ rest')"
      by simp
    moreover have "now_check ((env # envs) ! 0) < t" using future by simp
    moreover have "(0::nat) \<le> nat ((B - cur it) div step)" "length ([]::event list) = 0"
      "\<forall>w \<in> set ([]::event list). \<exists>u. w = Log WARNING (Next_run_in_past u)"
      by simp_all
    ultimately show ?thesis by blast
  qed
qed

theorem requery_ends_witness:
  "(0::int) < 60000000
   \<and> next_after every_minute (expr \<lparr>expr = (), cur = 0\<rparr>) (cur \<lparr>expr = (), cur = 0\<rparr>)
       = Some 60000000
   \<and> now_check ([on_time 150000000 (Returned 0), on_time 150000001 (Returned 0),
          on_time 150000002 (Returned 0), on_time 180000500 (Returned 0)] ! 0) \<le> 150000002
   \<and> now_check ([on_time 150000000 (Returned 0), on_time 150000001 (Returned 0),
          on_time 150000002 (Returned 0), on_time 180000500 (Returned 0)] ! 1) \<le> 150000002
   \<and> now_check ([on_time 150000000 (Returned 0), on_time 150000001 (Returned 0),
          on_time 150000002 (Returned 0), on_time 180000500 (Returned 0)] ! 2) \<le> 150000002
   \<and> 150000002 < now_check ([on_time 150000000 (Returned 0), on_time 150000001 (Returned 0),
          on_time 150000002 (Returned 0), on_time 180000500 (Returned 0)] ! 3)
   \<and> nat ((150000002 - cur \<lparr>expr = (), cur = 0\<rparr>) div 60000000) = 2
   \<and> (\<exists>k ws t rest. k \<le> 2 \<and> length ws = k
        \<and> (\<forall>w \<in> set ws. \<exists>u. w = Log WARNING (Next_run_in_past u))
        \<and> now_check ([on_time 150000000 (Returned 0), on_time 150000001 (Returned 0),
              on_time 150000002 (Returned 0), on_time 180000500 (Returned 0)] ! k) < t
        \<and> fst (main_loop every_minute backup_job \<lparr>expr = (), cur = 0\<rparr>
              [on_time 150000000 (Returned 0), on_time 150000001 (Returned 0),
               on_time 150000002 (Returned 0), on_time 180000500 (Returned 0)]) =
            ws @ Log INFO (Next_run_at t
              (t - now_log ([on_time 150000000 (Returned 0), on_time 150000001 (Returned 0),
                 on_time 150000002 (Returned 0), on_time 180000500 (Returned 0)] ! k))) # rest)
   \<and> fst (main_loop every_minute backup_job \<lparr>expr = (), cur = 0\<rparr>
        [on_time 150000000 (Returned 0), on_time 150000001 (Returned 0),
         on_time 150000002 (Returned 0), on_time 180000500 (Returned 0)]) =
       [Log WARNING (Next_run_in_past 60000000), Log WARNING (Next_run_in_past 120000000),
        Log INFO (Next_run_at 180000000 29999998), Sleep 29999998,
        Log INFO Running_job, Log DEBUG (Running_command ''backup --all''),
        Run \<lparr>args = [''backup'', ''--all''], p_stdin = DEVNULL,
             p_stdout = Sys_stdout, p_stderr = Sys_stderr\<rparr>,
        Log INFO (Exited_with_status 0),
        Log INFO (Next_run_at 240000000 59999500), Sleep 59999500,
        Log INFO Running_job, Log DEBUG (Running_command ''backup --all''),
        Run \<lparr>args = [''backup'', ''--all''], p_stdin = DEVNULL,
             p_stdout = Sys_stdout, p_stderr = Sys_stderr\<rparr>,
        Log INFO (Exited_with_status 0)]"
proof -
  let ?it = "\<lparr>expr = (), cur = 0::int\<rparr>"
  let ?envs = "[on_time 150000000 (Returned 0), on_time 150000001 (Returned 0),
      on_time 150000002 (Returned 0), on_time 180000500 (Returned 0)]"
  have step: "(0::int) < 60000000" by simp
  have first: "\<exists>t. next_after every_minute (expr ?it) (cur ?it) = Some t
      \<and> cur ?it + 60000000 \<le> t"
    by (simp add: every_minute_def)
  have again: "\<exists>t'. next_after every_minute (expr ?it) t = Some t' \<and> t + 60000000 \<le> t'"
    if "next_after every_minute (expr ?it) c = Some t" for c t
    using that by (auto simp add: every_minute_def)
  have three: "main_loop every_minute backup_job ?it (take 3 ?envs) =
      ([Log WARNING (Next_run_in_past 60000000), Log WARNING (Next_run_in_past 120000000),
        Log INFO (Next_run_at 180000000 29999998), Sleep 29999998,
        Log INFO Running_job, Log DEBUG (Running_command ''backup --all''),
        Run \<lparr>args = [''backup'', ''--all''], p_stdin = DEVNULL,
             p_stdout = Sys_stdout, p_stderr = Sys_stderr\<rparr>,
        Log INFO (Exited_with_status 0)], Inr \<lparr>expr = (), cur = 180000000\<rparr>)"
    by (simp add: model_defs sample_defs)
  have bounded: "now_check (?envs ! k) \<le> 150000002"
    if "k < length ?envs" and "main_loop every_minute backup_job ?it (take k ?envs) = (ws, Inr it')"
      and "\<forall>w \<in> set ws. \<exists>u. w = Log WARNING (Next_run_in_past u)" for k ws it'
  proof -
    from that(1) have "k < 4" by simp
    then consider "k = 0" | "k = 1" | "k = 2" | "k = 3" by arith
    then show ?thesis
    proof cases
      case 4
      from that(2) have "ws =
          [Log WARNING (Next_run_in_past 60000000), Log WARNING (Next_run_in_past 120000000),
            Log INFO (Next_run_at 180000000 29999998), Sleep 29999998,
            Log INFO Running_job, Log DEBUG (Running_command ''backup --all''),
            Run \<lparr>args = [''backup'', ''--all''], p_stdin = DEVNULL,
                 p_stdout = Sys_stdout, p_stderr = Sys_stderr\<rparr>,
            Log INFO (Exited_with_status 0)]"
        unfolding 4 three by (simp only: prod.inject)
      then have "Log INFO (Next_run_at 180000000 29999998) \<in> set ws"
        by (simp only: list.set insert_iff simp_thms)
      with that(3) have "\<exists>u. Log INFO (Next_run_at 180000000 29999998) =
          Log WARNING (Next_run_in_past u)"
        by (rule bspec)
      then show ?thesis by simp
    qed (simp_all add: on_time_def)
  qed
  have enough: "nat ((150000002 - cur ?it) div 60000000) < length ?envs" by simp
  have trace: "fst (main_loop every_minute backup_job ?it ?envs) =
       [Log WARNING (Next_run_in_past 60000000), Log WARNING (Next_run_in_past 120000000),
        Log INFO (Next_run_at 180000000 29999998), Sleep 29999998,
        Log INFO Running_job, Log DEBUG (Running_command ''backup --all''),
        Run \<lparr>args = [''backup'', ''--all''], p_stdin = DEVNULL,
             p_stdout = Sys_stdout, p_stderr = Sys_stderr\<rparr>,
        Log INFO (Exited_with_status 0),
        Log INFO (Next_run_at 240000000 59999500), Sleep 59999500,
        Log INFO Running_job, Log DEBUG (Running_command ''backup --all''),
        Run \<lparr>args = [''backup'', ''--all''], p_stdin = DEVNULL,
             p_stdout = Sys_stdout, p_stderr = Sys_stderr\<rparr>,
        Log INFO (Exited_with_status 0)]"
    by (simp add: model_defs sample_defs)
  have two: "nat ((150000002 - cur ?it) div 60000000) = 2" by simp
  have ends: "\<exists>k ws t rest. k \<le> 2 \<and> length ws = k
        \<and> (\<forall>w \<in> set ws. \<exists>u. w = Log WARNING (Next_run_in_past u))
        \<and> now_check (?envs ! k) < t
        \<and> fst (main_loop every_minute backup_job ?it ?envs) =
            ws @ Log INFO (Next_run_at t (t - now_log (?envs ! k))) # rest"
    using requery_ends [of 60000000 every_minute ?it ?envs backup_job 150000002,
      OF step first again bounded enough]
    unfolding two .
  have readings: "now_check (?envs ! 0) \<le> 150000002" "now_check (?envs ! 1) \<le> 150000002"
    "now_check (?envs ! 2) \<le> 150000002" "150000002 < now_check (?envs ! 3)"
    by (simp_all add: on_time_def)
  have start: "next_after every_minute (expr ?it) (cur ?it) = Some 60000000"
    by (simp add: every_minute_def)
  show ?thesis
    using step start readings two ends trace by - (intro conjI, assumption+)
qed

end
